theory Spec2Isabelle
  imports Complex_Main "HOL-Library.Word" "HOL-Library.Log_Nat"
begin

section \<open>Binary64 arithmetic\<close>

text \<open>
  The development embeds \<^verbatim>\<open>src/tracktable/Core/PropertyValue.cpp\<close>. A C++
  \<^verbatim>\<open>double\<close> is an IEEE 754 binary64 number: a finite value, given by the real number
  it denotes, an infinity or a NaN. Every arithmetic operation and every conversion from an
  integer rounds its exact result to the nearest binary64 value, ties to the even significand,
  as on a target that evaluates each operation in double precision. The sign of a zero is not
  kept. \<^verbatim>\<open>int64_t\<close> is a 64-bit word read as a signed number by \<open>sint\<close>.
\<close>

datatype double = Finite real | PlusInfinity | MinusInfinity | NaN

text \<open>The power of two with an integer exponent.\<close>

definition pow2 :: "int \<Rightarrow> real" where
  "pow2 k = (if 0 \<le> k then 2 ^ nat k else 1 / 2 ^ nat (- k))"

text \<open>The binary exponent of a nonzero real \<open>x\<close>: the \<open>e\<close> with \<open>2^e \<le> |x| < 2^(e+1)\<close>,
  computed from the bit length of the integer part of \<open>|x|\<close> or of \<open>1 / |x|\<close>.\<close>

definition binary_exponent :: "real \<Rightarrow> int" where
  "binary_exponent x =
     (if 1 \<le> \<bar>x\<bar> then bitlen \<lfloor>\<bar>x\<bar>\<rfloor> - 1 else - bitlen (\<lceil>1 / \<bar>x\<bar>\<rceil> - 1))"

text \<open>Rounding to the nearest integer, a tie going to the even one.\<close>

definition round_half_even :: "real \<Rightarrow> int" where
  "round_half_even q =
     (if q - of_int \<lfloor>q\<rfloor> < 1/2 then \<lfloor>q\<rfloor>
      else if 1/2 < q - of_int \<lfloor>q\<rfloor> then \<lfloor>q\<rfloor> + 1
      else if even \<lfloor>q\<rfloor> then \<lfloor>q\<rfloor> else \<lfloor>q\<rfloor> + 1)"

text \<open>The spacing of binary64 values around \<open>x\<close>: 52 fraction bits below the binary exponent,
  which does not go below \<open>-1022\<close> (subnormal numbers share the spacing \<open>2^-1074\<close>).\<close>

definition binary64_quantum :: "real \<Rightarrow> real" where
  "binary64_quantum x = pow2 (max (binary_exponent x) (- 1022) - 52)"

definition binary64_round :: "real \<Rightarrow> real" where
  "binary64_round x = of_int (round_half_even (x / binary64_quantum x)) * binary64_quantum x"

text \<open>The result of an operation whose exact value is \<open>x\<close>: the rounded value, or an infinity
  when the rounded value is beyond the largest finite binary64 number.\<close>

definition round_result :: "real \<Rightarrow> double" where
  "round_result x =
     (if 2 ^ 1024 \<le> binary64_round x then PlusInfinity
      else if binary64_round x \<le> - (2 ^ 1024) then MinusInfinity
      else Finite (binary64_round x))"

text \<open>A real number that is a finite binary64 value.\<close>

definition binary64_value :: "real \<Rightarrow> bool" where
  "binary64_value x = (binary64_round x = x \<and> \<bar>x\<bar> < 2 ^ 1024)"

fun is_binary64 :: "double \<Rightarrow> bool" where
  "is_binary64 (Finite x) = binary64_value x"
| "is_binary64 PlusInfinity = True"
| "is_binary64 MinusInfinity = True"
| "is_binary64 NaN = True"

text \<open>The comparisons \<^verbatim>\<open><\<close>, \<^verbatim>\<open><=\<close> and \<^verbatim>\<open>>=\<close>; every comparison with a NaN is false.\<close>

fun double_lt :: "double \<Rightarrow> double \<Rightarrow> bool" where
  "double_lt (Finite x) (Finite y) = (x < y)"
| "double_lt (Finite x) PlusInfinity = True"
| "double_lt (Finite x) MinusInfinity = False"
| "double_lt (Finite x) NaN = False"
| "double_lt PlusInfinity b = False"
| "double_lt MinusInfinity (Finite y) = True"
| "double_lt MinusInfinity PlusInfinity = True"
| "double_lt MinusInfinity MinusInfinity = False"
| "double_lt MinusInfinity NaN = False"
| "double_lt NaN b = False"

fun double_le :: "double \<Rightarrow> double \<Rightarrow> bool" where
  "double_le (Finite x) (Finite y) = (x \<le> y)"
| "double_le (Finite x) PlusInfinity = True"
| "double_le (Finite x) MinusInfinity = False"
| "double_le (Finite x) NaN = False"
| "double_le PlusInfinity (Finite y) = False"
| "double_le PlusInfinity PlusInfinity = True"
| "double_le PlusInfinity MinusInfinity = False"
| "double_le PlusInfinity NaN = False"
| "double_le MinusInfinity (Finite y) = True"
| "double_le MinusInfinity PlusInfinity = True"
| "double_le MinusInfinity MinusInfinity = True"
| "double_le MinusInfinity NaN = False"
| "double_le NaN b = False"

definition double_ge :: "double \<Rightarrow> double \<Rightarrow> bool" where
  "double_ge a b = double_le b a"

text \<open>Addition, subtraction and multiplication. Opposite infinities have no sum and an infinity
  times zero has no product (NaN); a NaN operand gives a NaN.\<close>

fun double_add :: "double \<Rightarrow> double \<Rightarrow> double" where
  "double_add (Finite x) (Finite y) = round_result (x + y)"
| "double_add (Finite x) PlusInfinity = PlusInfinity"
| "double_add (Finite x) MinusInfinity = MinusInfinity"
| "double_add (Finite x) NaN = NaN"
| "double_add PlusInfinity (Finite y) = PlusInfinity"
| "double_add PlusInfinity PlusInfinity = PlusInfinity"
| "double_add PlusInfinity MinusInfinity = NaN"
| "double_add PlusInfinity NaN = NaN"
| "double_add MinusInfinity (Finite y) = MinusInfinity"
| "double_add MinusInfinity PlusInfinity = NaN"
| "double_add MinusInfinity MinusInfinity = MinusInfinity"
| "double_add MinusInfinity NaN = NaN"
| "double_add NaN b = NaN"

fun double_sub :: "double \<Rightarrow> double \<Rightarrow> double" where
  "double_sub (Finite x) (Finite y) = round_result (x - y)"
| "double_sub (Finite x) PlusInfinity = MinusInfinity"
| "double_sub (Finite x) MinusInfinity = PlusInfinity"
| "double_sub (Finite x) NaN = NaN"
| "double_sub PlusInfinity (Finite y) = PlusInfinity"
| "double_sub PlusInfinity PlusInfinity = NaN"
| "double_sub PlusInfinity MinusInfinity = PlusInfinity"
| "double_sub PlusInfinity NaN = NaN"
| "double_sub MinusInfinity (Finite y) = MinusInfinity"
| "double_sub MinusInfinity PlusInfinity = MinusInfinity"
| "double_sub MinusInfinity MinusInfinity = NaN"
| "double_sub MinusInfinity NaN = NaN"
| "double_sub NaN b = NaN"

text \<open>An infinity with the sign of \<open>s\<close>, or a NaN when \<open>s\<close> is zero.\<close>

definition signed_infinity :: "real \<Rightarrow> double" where
  "signed_infinity s = (if s = 0 then NaN else if 0 < s then PlusInfinity else MinusInfinity)"

fun double_mul :: "double \<Rightarrow> double \<Rightarrow> double" where
  "double_mul (Finite x) (Finite y) = round_result (x * y)"
| "double_mul (Finite x) PlusInfinity = signed_infinity x"
| "double_mul (Finite x) MinusInfinity = signed_infinity (- x)"
| "double_mul (Finite x) NaN = NaN"
| "double_mul PlusInfinity (Finite y) = signed_infinity y"
| "double_mul PlusInfinity PlusInfinity = PlusInfinity"
| "double_mul PlusInfinity MinusInfinity = MinusInfinity"
| "double_mul PlusInfinity NaN = NaN"
| "double_mul MinusInfinity (Finite y) = signed_infinity (- y)"
| "double_mul MinusInfinity PlusInfinity = MinusInfinity"
| "double_mul MinusInfinity MinusInfinity = PlusInfinity"
| "double_mul MinusInfinity NaN = NaN"
| "double_mul NaN b = NaN"

text \<open>A decimal literal such as \<^verbatim>\<open>0.7\<close> denotes the binary64 value nearest to it.\<close>

definition double_literal :: "real \<Rightarrow> double" where
  "double_literal x = round_result x"

text \<open>Conversion of an integer to \<^verbatim>\<open>double\<close>, as in mixed arithmetic.\<close>

definition double_of_int :: "int \<Rightarrow> double" where
  "double_of_int i = round_result (real_of_int i)"

section \<open>Property values of tracktable: the data model\<close>

text \<open>The enumeration \<^verbatim>\<open>tracktable::PropertyUnderlyingType\<close>, with the six enumerators
  the source names.\<close>

datatype PropertyUnderlyingType =
    TYPE_UNKNOWN
  | TYPE_REAL
  | TYPE_STRING
  | TYPE_TIMESTAMP
  | TYPE_INTEGER
  | TYPE_NULL

text \<open>\<^verbatim>\<open>tracktable::NullValue\<close>: an absent value that remembers the type it stands for.\<close>

record NullValue =
  ExpectedType :: PropertyUnderlyingType

type_synonym string_type = string

type_synonym int64_t = "64 word"

text \<open>Modelled from the spec: \<^verbatim>\<open>tracktable::Timestamp\<close> and \<^verbatim>\<open>tracktable::Duration\<close> are
  declared in headers that are not part of the sources at hand. The spec describes a timestamp as
  an instant with a fixed duration representation at microsecond resolution, so a timestamp is the
  number of microseconds since an epoch and a duration is a signed number of microseconds.\<close>

type_synonym Timestamp = int

type_synonym Duration = int

text \<open>\<^verbatim>\<open>tracktable::PropertyValueT\<close>, the variant, in the configuration whose variant has the
  \<^verbatim>\<open>int64_t\<close> alternative and in which both visitors compile their \<^verbatim>\<open>int64_t\<close> overload
  (the source guards the one of \<^verbatim>\<open>InterpolateProperties\<close> by
  \<^verbatim>\<open>PROPERTY_VALUE_INCLUDES_INT\<close> and the one of \<^verbatim>\<open>RetrieveUnderlyingType\<close> by
  \<^verbatim>\<open>PROPERTY_VALUE_INCLUDES_INTEGER\<close>).\<close>

datatype PropertyValueT =
    NullVal NullValue
  | RealVal double
  | IntegerVal int64_t
  | StringVal string_type
  | TimestampVal Timestamp

section \<open>The type-tag visitor\<close>

text \<open>\<^verbatim>\<open>class RetrieveUnderlyingType\<close> has one member, \<^verbatim>\<open>value\<close>; the constructor sets it
  to \<^verbatim>\<open>TYPE_UNKNOWN\<close> and each call operator overwrites it.\<close>

record RetrieveUnderlyingType =
  visitor_value :: PropertyUnderlyingType

definition RetrieveUnderlyingType_new :: RetrieveUnderlyingType where
  "RetrieveUnderlyingType_new = \<lparr>visitor_value = TYPE_UNKNOWN\<rparr>"

text \<open>\<^verbatim>\<open>boost::apply_visitor(visitor, pv)\<close> selects the call operator of the live alternative;
  the cases are in the order of the source.\<close>

fun RetrieveUnderlyingType_apply ::
  "RetrieveUnderlyingType \<Rightarrow> PropertyValueT \<Rightarrow> RetrieveUnderlyingType" where
  "RetrieveUnderlyingType_apply vis (RealVal d) = vis\<lparr>visitor_value := TYPE_REAL\<rparr>"
| "RetrieveUnderlyingType_apply vis (StringVal s) = vis\<lparr>visitor_value := TYPE_STRING\<rparr>"
| "RetrieveUnderlyingType_apply vis (TimestampVal ts) = vis\<lparr>visitor_value := TYPE_TIMESTAMP\<rparr>"
| "RetrieveUnderlyingType_apply vis (IntegerVal i) = vis\<lparr>visitor_value := TYPE_INTEGER\<rparr>"
| "RetrieveUnderlyingType_apply vis (NullVal n) = vis\<lparr>visitor_value := TYPE_NULL\<rparr>"

definition property_underlying_type :: "PropertyValueT \<Rightarrow> PropertyUnderlyingType" where
  "property_underlying_type pv =
     visitor_value (RetrieveUnderlyingType_apply RetrieveUnderlyingType_new pv)"

definition is_property_null :: "PropertyValueT \<Rightarrow> bool" where
  "is_property_null v = (property_underlying_type v = TYPE_NULL)"

section \<open>The interpolation visitor\<close>

text \<open>What a call can end in instead of a value: \<^verbatim>\<open>boost::get<T>\<close> on a variant whose
  live alternative is not \<open>T\<close> throws \<^verbatim>\<open>boost::bad_get\<close> (the spec's TypeMismatch), and
  \<^verbatim>\<open>static_cast<int64_t>\<close> of a double that is not finite or whose truncation does not fit
  64 bits has no defined result in C++, which the model keeps apart instead of inventing a
  value.\<close>

datatype fault = bad_get | cast_out_of_range

fun get_double :: "PropertyValueT \<Rightarrow> fault + double" where
  "get_double (RealVal d) = Inr d"
| "get_double _ = Inl bad_get"

fun get_int64 :: "PropertyValueT \<Rightarrow> fault + int64_t" where
  "get_int64 (IntegerVal i) = Inr i"
| "get_int64 _ = Inl bad_get"

fun get_string :: "PropertyValueT \<Rightarrow> fault + string_type" where
  "get_string (StringVal s) = Inr s"
| "get_string _ = Inl bad_get"

fun get_Timestamp :: "PropertyValueT \<Rightarrow> fault + Timestamp" where
  "get_Timestamp (TimestampVal ts) = Inr ts"
| "get_Timestamp _ = Inl bad_get"

text \<open>Conversion of a double to \<^verbatim>\<open>int64_t\<close> discards the fractional part (rounds toward
  zero).\<close>

definition trunc_toward_zero :: "real \<Rightarrow> int" where
  "trunc_toward_zero r = (if 0 \<le> r then \<lfloor>r\<rfloor> else \<lceil>r\<rceil>)"

definition int64_representable :: "int \<Rightarrow> bool" where
  "int64_representable z = (- (2 ^ 63) \<le> z \<and> z < 2 ^ 63)"

fun static_cast_int64 :: "double \<Rightarrow> fault + int64_t" where
  "static_cast_int64 (Finite r) =
     (if int64_representable (trunc_toward_zero r)
      then Inr (word_of_int (trunc_toward_zero r))
      else Inl cast_out_of_range)"
| "static_cast_int64 PlusInfinity = Inl cast_out_of_range"
| "static_cast_int64 MinusInfinity = Inl cast_out_of_range"
| "static_cast_int64 NaN = Inl cast_out_of_range"

text \<open>Conversion of an \<^verbatim>\<open>int64_t\<close> operand to double in mixed arithmetic.\<close>

definition double_of_int64 :: "int64_t \<Rightarrow> double" where
  "double_of_int64 i = double_of_int (sint i)"

text \<open>Modelled from the spec: the operations of the date-time library on the missing types
  \<^verbatim>\<open>Timestamp\<close> and \<^verbatim>\<open>Duration\<close>: the difference of two timestamps is a signed duration,
  \<^verbatim>\<open>total_microseconds\<close> reads a duration as a count of microseconds,
  \<^verbatim>\<open>tracktable::microseconds\<close> builds a duration from an \<^verbatim>\<open>int64_t\<close> count, and a
  duration is added to a timestamp.\<close>

definition Timestamp_minus :: "Timestamp \<Rightarrow> Timestamp \<Rightarrow> Duration" where
  "Timestamp_minus value2 value1 = value2 - value1"

definition total_microseconds :: "Duration \<Rightarrow> int" where
  "total_microseconds d = d"

definition microseconds :: "int64_t \<Rightarrow> Duration" where
  "microseconds n = sint n"

definition Timestamp_plus :: "Timestamp \<Rightarrow> Duration \<Rightarrow> Timestamp" where
  "Timestamp_plus ts d = ts + d"

text \<open>\<^verbatim>\<open>struct InterpolateProperties\<close>: the visitor carries the interpolant and the second
  value; it is applied to the first value. The literal \<^verbatim>\<open>0.5\<close> is the double one half and
  the integer literal \<^verbatim>\<open>1\<close> converts to the double one.\<close>

record InterpolateProperties =
  interpolant :: double
  SecondValue :: PropertyValueT

definition call_NullValue :: "InterpolateProperties \<Rightarrow> NullValue \<Rightarrow> fault + PropertyValueT" where
  "call_NullValue this value1 =
     (if double_lt (interpolant this) (Finite (1/2))
      then Inr (NullVal value1) else Inr (SecondValue this))"

definition call_double :: "InterpolateProperties \<Rightarrow> double \<Rightarrow> fault + PropertyValueT" where
  "call_double this value1 =
     (case get_double (SecondValue this) of
        Inl e \<Rightarrow> Inl e
      | Inr value2 \<Rightarrow>
          Inr (RealVal (double_add
                 (double_mul (double_sub (Finite 1) (interpolant this)) value1)
                 (double_mul (interpolant this) value2))))"

definition call_int64 :: "InterpolateProperties \<Rightarrow> int64_t \<Rightarrow> fault + PropertyValueT" where
  "call_int64 this value1 =
     (if is_property_null (SecondValue this)
      then (if double_lt (interpolant this) (Finite (1/2))
            then Inr (IntegerVal value1) else Inr (SecondValue this))
      else
        (case get_int64 (SecondValue this) of
           Inl e \<Rightarrow> Inl e
         | Inr value2 \<Rightarrow>
            (case static_cast_int64
                    (double_add
                       (double_mul (double_sub (Finite 1) (interpolant this))
                                   (double_of_int64 value1))
                       (double_add (interpolant this) (double_of_int64 value2))) of
               Inl e \<Rightarrow> Inl e
             | Inr result \<Rightarrow> Inr (IntegerVal result))))"

definition call_string :: "InterpolateProperties \<Rightarrow> string_type \<Rightarrow> fault + PropertyValueT" where
  "call_string this value1 =
     (if is_property_null (SecondValue this)
      then (if double_lt (interpolant this) (Finite (1/2))
            then Inr (StringVal value1) else Inr (SecondValue this))
      else
        (case get_string (SecondValue this) of
           Inl e \<Rightarrow> Inl e
         | Inr value2 \<Rightarrow>
            (if double_lt (interpolant this) (Finite (1/2))
             then Inr (StringVal value1) else Inr (StringVal value2))))"

definition call_Timestamp :: "InterpolateProperties \<Rightarrow> Timestamp \<Rightarrow> fault + PropertyValueT" where
  "call_Timestamp this value1 =
     (if is_property_null (SecondValue this)
      then (if double_lt (interpolant this) (Finite (1/2))
            then Inr (TimestampVal value1) else Inr (SecondValue this))
      else
        (case get_Timestamp (SecondValue this) of
           Inl e \<Rightarrow> Inl e
         | Inr value2 \<Rightarrow>
            (let delta_t = Timestamp_minus value2 value1 in
             case static_cast_int64
                    (double_mul (double_of_int (total_microseconds delta_t))
                                (interpolant this)) of
               Inl e \<Rightarrow> Inl e
             | Inr us \<Rightarrow>
                 (let interpolated_delta_t = microseconds us
                  in Inr (TimestampVal (Timestamp_plus value1 interpolated_delta_t))))))"

text \<open>\<^verbatim>\<open>boost::apply_visitor(calculator, first)\<close>: dispatch on the live alternative of the
  first value.\<close>

fun apply_visitor :: "InterpolateProperties \<Rightarrow> PropertyValueT \<Rightarrow> fault + PropertyValueT" where
  "apply_visitor calculator (NullVal value1) = call_NullValue calculator value1"
| "apply_visitor calculator (RealVal value1) = call_double calculator value1"
| "apply_visitor calculator (IntegerVal value1) = call_int64 calculator value1"
| "apply_visitor calculator (StringVal value1) = call_string calculator value1"
| "apply_visitor calculator (TimestampVal value1) = call_Timestamp calculator value1"

section \<open>Interpolation and extrapolation of properties\<close>

definition interpolate_property ::
  "PropertyValueT \<Rightarrow> PropertyValueT \<Rightarrow> double \<Rightarrow> fault + PropertyValueT" where
  "interpolate_property first second t =
     (if double_le t (Finite 0) then Inr first
      else if double_ge t (Finite 1) then Inr second
      else apply_visitor \<lparr>interpolant = t, SecondValue = second\<rparr> first)"

definition extrapolate_property ::
  "PropertyValueT \<Rightarrow> PropertyValueT \<Rightarrow> double \<Rightarrow> fault + PropertyValueT" where
  "extrapolate_property first second t =
     apply_visitor \<lparr>interpolant = t, SecondValue = second\<rparr> first"

section \<open>Facts about binary64 rounding\<close>

lemma pow2_power_int: "pow2 k = 2 powi k"
  by (simp add: pow2_def power_int_def power_one_over inverse_eq_divide)

lemma pow2_pos [simp]: "0 < pow2 k"
  by (simp add: pow2_power_int)

lemma pow2_add: "pow2 (a + b) = pow2 a * pow2 b"
  by (simp add: pow2_power_int power_int_add)

lemma pow2_strict_mono: "a < b \<Longrightarrow> pow2 a < pow2 b"
  using power_int_strict_increasing [of a b "2::real"] by (simp add: pow2_power_int)

lemma pow2_less_iff [simp]: "pow2 a < pow2 b \<longleftrightarrow> a < b"
proof
  assume lt: "pow2 a < pow2 b"
  show "a < b"
  proof (rule ccontr)
    assume "\<not> a < b"
    then have "b = a \<or> b < a" by auto
    then have "pow2 b \<le> pow2 a" using pow2_strict_mono [of b a] by auto
    with lt show False by simp
  qed
qed (rule pow2_strict_mono)

lemma pow2_le_iff [simp]: "pow2 a \<le> pow2 b \<longleftrightarrow> a \<le> b"
  using pow2_less_iff [of b a] by (simp only: not_less [symmetric])

lemma pow2_nat: "0 \<le> k \<Longrightarrow> pow2 k = 2 ^ nat k"
  by (simp add: pow2_def)

lemma pow2_0 [simp]: "pow2 0 = 1"
  by (simp add: pow2_def)

lemma pow2_1 [simp]: "pow2 1 = 2"
  by (simp add: pow2_def)

lemma pow2_Suc: "pow2 (k + 1) = 2 * pow2 k"
  by (simp add: pow2_add)

lemma binary_exponent_bounds:
  assumes "x \<noteq> 0"
  shows "pow2 (binary_exponent x) \<le> \<bar>x\<bar>" and "\<bar>x\<bar> < pow2 (binary_exponent x + 1)"
proof -
  show "pow2 (binary_exponent x) \<le> \<bar>x\<bar>"
  proof (cases "1 \<le> \<bar>x\<bar>")
    case True
    define n where "n = \<lfloor>\<bar>x\<bar>\<rfloor>"
    have n: "0 < n" using True by (simp add: n_def)
    then have b: "1 \<le> bitlen n" by (simp add: bitlen_alt_def)
    have "real_of_int (2 ^ nat (bitlen n - 1)) \<le> real_of_int n"
      using bitlen_bounds [OF n] by (intro of_int_le_iff [THEN iffD2]) simp
    also have "\<dots> \<le> \<bar>x\<bar>" by (simp add: n_def)
    finally show ?thesis
      using True b by (simp add: binary_exponent_def n_def [symmetric] pow2_nat)
  next
    case False
    define m where "m = \<lceil>1 / \<bar>x\<bar>\<rceil> - 1"
    have y: "1 < 1 / \<bar>x\<bar>" using False assms by simp
    then have "1 < \<lceil>1 / \<bar>x\<bar>\<rceil>" by (simp add: less_ceiling_iff)
    then have m: "0 < m" by (simp add: m_def)
    then have b: "1 \<le> bitlen m" by (simp add: bitlen_alt_def)
    have "1 / \<bar>x\<bar> \<le> real_of_int (m + 1)" by (simp add: m_def)
    also have "real_of_int (m + 1) \<le> real_of_int (2 ^ nat (bitlen m))"
      using bitlen_bounds [OF m] by (intro of_int_le_iff [THEN iffD2]) simp
    finally have "1 / \<bar>x\<bar> \<le> 2 ^ nat (bitlen m)" by simp
    then have "1 / 2 ^ nat (bitlen m) \<le> \<bar>x\<bar>"
      using assms by (simp add: field_simps)
    then show ?thesis
      using False b by (simp add: binary_exponent_def m_def [symmetric] pow2_def)
  qed
  show "\<bar>x\<bar> < pow2 (binary_exponent x + 1)"
  proof (cases "1 \<le> \<bar>x\<bar>")
    case True
    define n where "n = \<lfloor>\<bar>x\<bar>\<rfloor>"
    have n: "0 < n" using True by (simp add: n_def)
    then have b: "1 \<le> bitlen n" by (simp add: bitlen_alt_def)
    have "n + 1 \<le> 2 ^ nat (bitlen n)" using bitlen_bounds [OF n] by simp
    then have "real_of_int (n + 1) \<le> real_of_int (2 ^ nat (bitlen n))"
      by (intro of_int_le_iff [THEN iffD2])
    moreover have "\<bar>x\<bar> < real_of_int (n + 1)" by (simp add: n_def)
    ultimately have "\<bar>x\<bar> < 2 ^ nat (bitlen n)" by simp
    then show ?thesis
      using True b by (simp add: binary_exponent_def n_def [symmetric] pow2_nat)
  next
    case False
    define m where "m = \<lceil>1 / \<bar>x\<bar>\<rceil> - 1"
    have y: "1 < 1 / \<bar>x\<bar>" using False assms by simp
    then have "1 < \<lceil>1 / \<bar>x\<bar>\<rceil>" by (simp add: less_ceiling_iff)
    then have m: "0 < m" by (simp add: m_def)
    then have b: "1 \<le> bitlen m" by (simp add: bitlen_alt_def)
    have "real_of_int (2 ^ nat (bitlen m - 1)) \<le> real_of_int m"
      using bitlen_bounds [OF m] by (intro of_int_le_iff [THEN iffD2]) simp
    also have "real_of_int m < 1 / \<bar>x\<bar>"
      by (simp add: m_def) (metis ceiling_correct diff_less_eq)
    finally have lt: "2 ^ nat (bitlen m - 1) < 1 / \<bar>x\<bar>" by simp
    have "\<bar>x\<bar> < pow2 (1 - bitlen m)"
    proof (cases "bitlen m = 1")
      case True
      with lt assms show ?thesis by (simp add: field_simps)
    next
      case False
      with b have "1 - bitlen m < 0" by simp
      moreover have "nat (- (1 - bitlen m)) = nat (bitlen m - 1)" by simp
      ultimately show ?thesis
        using lt assms by (simp add: pow2_def field_simps)
    qed
    then show ?thesis
      using False by (simp add: binary_exponent_def m_def [symmetric] add.commute)
  qed
qed

lemma binary_exponent_unique:
  assumes "pow2 e \<le> \<bar>x\<bar>" and "\<bar>x\<bar> < pow2 (e + 1)"
  shows "binary_exponent x = e"
proof -
  have "0 < \<bar>x\<bar>" using assms(1) pow2_pos [of e] by linarith
  then have nz: "x \<noteq> 0" by simp
  from binary_exponent_bounds [OF nz] assms
  have "pow2 e < pow2 (binary_exponent x + 1)" and "pow2 (binary_exponent x) < pow2 (e + 1)"
    by linarith+
  then show ?thesis by simp
qed


lemma round_half_even_of_int [simp]: "round_half_even (of_int n) = n"
  by (simp add: round_half_even_def)

lemma round_half_even_ge: "of_int n \<le> q \<Longrightarrow> n \<le> round_half_even q"
proof -
  assume "of_int n \<le> q"
  then have "n \<le> \<lfloor>q\<rfloor>" by (simp add: le_floor_iff)
  then show ?thesis by (simp add: round_half_even_def)
qed

lemma round_half_even_le: "q \<le> of_int n \<Longrightarrow> round_half_even q \<le> n"
proof (cases "q = of_int n")
  case True
  then show ?thesis by simp
next
  case False
  assume "q \<le> of_int n"
  with False have "q < of_int n" by simp
  then have "\<lfloor>q\<rfloor> < n" by (simp add: floor_less_iff)
  then show ?thesis by (simp add: round_half_even_def)
qed

lemma round_half_even_minus: "round_half_even (- q) = - round_half_even q"
proof (cases "q = of_int \<lfloor>q\<rfloor>")
  case True
  then obtain n where "q = of_int n" ..
  then have "- q = of_int (- n)" by simp
  then show ?thesis unfolding \<open>q = of_int n\<close> by (simp only: round_half_even_of_int)
next
  case False
  then have "\<lceil>q\<rceil> = \<lfloor>q\<rfloor> + 1" by (simp add: ceiling_altdef)
  then have fl: "\<lfloor>- q\<rfloor> = - \<lfloor>q\<rfloor> - 1" by (simp add: ceiling_def)
  have "of_int \<lfloor>q\<rfloor> \<le> q" by (rule of_int_floor_le)
  with False have fr: "0 < q - of_int \<lfloor>q\<rfloor>" by linarith
  show ?thesis
    using fr by (auto simp add: round_half_even_def fl)
qed

lemma binary_exponent_minus [simp]: "binary_exponent (- x) = binary_exponent x"
  by (simp add: binary_exponent_def)

lemma binary64_quantum_minus [simp]: "binary64_quantum (- x) = binary64_quantum x"
  by (simp add: binary64_quantum_def)

lemma binary64_quantum_pos [simp]: "0 < binary64_quantum x"
  by (simp add: binary64_quantum_def)

lemma binary64_round_minus: "binary64_round (- x) = - binary64_round x"
  by (simp add: binary64_round_def round_half_even_minus)

lemma binary64_round_0 [simp]: "binary64_round 0 = 0"
  by (simp add: binary64_round_def round_half_even_def)

lemma binary64_round_ge:
  assumes "of_int lo * binary64_quantum x \<le> x"
  shows "of_int lo * binary64_quantum x \<le> binary64_round x"
proof -
  have "of_int lo \<le> x / binary64_quantum x"
    using assms by (simp add: pos_le_divide_eq)
  then have "lo \<le> round_half_even (x / binary64_quantum x)"
    by (rule round_half_even_ge)
  then have "real_of_int lo \<le> real_of_int (round_half_even (x / binary64_quantum x))"
    by simp
  then show ?thesis
    unfolding binary64_round_def by (rule mult_right_mono) (simp add: less_imp_le)
qed

lemma binary64_round_le:
  assumes "x \<le> of_int hi * binary64_quantum x"
  shows "binary64_round x \<le> of_int hi * binary64_quantum x"
proof -
  have "x / binary64_quantum x \<le> of_int hi"
    using assms by (simp add: pos_divide_le_eq)
  then have "round_half_even (x / binary64_quantum x) \<le> hi"
    by (rule round_half_even_le)
  then have "real_of_int (round_half_even (x / binary64_quantum x)) \<le> real_of_int hi"
    by simp
  then show ?thesis
    unfolding binary64_round_def by (rule mult_right_mono) (simp add: less_imp_le)
qed

lemma binary64_round_nonneg: "0 \<le> x \<Longrightarrow> 0 \<le> binary64_round x"
  using binary64_round_ge [of 0 x] by simp

lemma pow2_52_quantum: "pow2 k = of_int (2 ^ 52) * pow2 (k - 52)"
proof -
  have "k = 52 + (k - 52)" by simp
  then have "pow2 k = pow2 (52 + (k - 52))" by simp
  also have "\<dots> = pow2 52 * pow2 (k - 52)" by (rule pow2_add)
  also have "pow2 52 = of_int (2 ^ 52)" by (simp add: pow2_def)
  finally show ?thesis .
qed

lemma pow2_53_quantum: "pow2 (k + 1) = of_int (2 ^ 53) * pow2 (k - 52)"
proof -
  have "k + 1 = 53 + (k - 52)" by simp
  then have "pow2 (k + 1) = pow2 (53 + (k - 52))" by (simp only:)
  also have "\<dots> = pow2 53 * pow2 (k - 52)" by (rule pow2_add)
  also have "pow2 53 = of_int (2 ^ 53)" by (simp add: pow2_def)
  finally show ?thesis .
qed

lemma binary64_round_lower:
  assumes "pow2 a \<le> x" and "- 1022 \<le> a"
  shows "pow2 a \<le> binary64_round x"
proof -
  have pos: "0 < x" using assms(1) pow2_pos [of a] by linarith
  then have nz: "x \<noteq> 0" by simp
  let ?e = "binary_exponent x"
  from binary_exponent_bounds [OF nz] pos
  have lo: "pow2 ?e \<le> x" and hi: "x < pow2 (?e + 1)" by simp_all
  from assms(1) hi have "pow2 a < pow2 (?e + 1)" by linarith
  then have ae: "a \<le> ?e" by simp
  with assms(2) have "max ?e (- 1022) = ?e" by simp
  then have q: "binary64_quantum x = pow2 (?e - 52)"
    by (simp only: binary64_quantum_def)
  have "of_int (2 ^ 52) * binary64_quantum x \<le> x"
    using lo by (simp only: q pow2_52_quantum [symmetric])
  then have "of_int (2 ^ 52) * binary64_quantum x \<le> binary64_round x"
    by (rule binary64_round_ge)
  then have "pow2 ?e \<le> binary64_round x"
    by (simp only: q pow2_52_quantum [symmetric])
  moreover have "pow2 a \<le> pow2 ?e" using ae by simp
  ultimately show ?thesis by linarith
qed

lemma binary64_round_upper:
  assumes "0 \<le> x" and "x \<le> pow2 b" and "- 1022 \<le> b"
  shows "binary64_round x \<le> pow2 b"
proof (cases "x = 0")
  case True
  then show ?thesis using pow2_pos [of b] by (simp add: less_imp_le)
next
  case nz: False
  with assms(1) have pos: "0 < x" by simp
  let ?e = "binary_exponent x"
  let ?E = "max ?e (- 1022)"
  from binary_exponent_bounds [OF nz] pos
  have lo: "pow2 ?e \<le> x" and hi: "x < pow2 (?e + 1)" by simp_all
  have q: "binary64_quantum x = pow2 (?E - 52)" by (simp add: binary64_quantum_def)
  show ?thesis
  proof (cases "?E + 1 \<le> b")
    case True
    have "pow2 (?e + 1) \<le> pow2 (?E + 1)" by simp
    with hi have "x \<le> pow2 (?E + 1)" by linarith
    then have "x \<le> of_int (2 ^ 53) * binary64_quantum x"
      by (simp only: q pow2_53_quantum [symmetric])
    then have "binary64_round x \<le> of_int (2 ^ 53) * binary64_quantum x"
      by (rule binary64_round_le)
    then have "binary64_round x \<le> pow2 (?E + 1)"
      by (simp only: q pow2_53_quantum [symmetric])
    moreover have "pow2 (?E + 1) \<le> pow2 b" using True by simp
    ultimately show ?thesis by linarith
  next
    case False
    then have Eb: "b \<le> ?E" by simp
    have "?E = b"
    proof (rule ccontr)
      assume "?E \<noteq> b"
      with Eb have "b < ?E" by simp
      with assms(3) have "b < ?e" by (simp add: max_def split: if_splits)
      then have "pow2 b < pow2 ?e" by simp
      with lo assms(2) show False by linarith
    qed
    then have qb: "binary64_quantum x = pow2 (b - 52)" by (simp only: q)
    have "x \<le> of_int (2 ^ 52) * binary64_quantum x"
      using assms(2) by (simp only: qb pow2_52_quantum [symmetric])
    then have "binary64_round x \<le> of_int (2 ^ 52) * binary64_quantum x"
      by (rule binary64_round_le)
    then show ?thesis
      by (simp only: qb pow2_52_quantum [symmetric])
  qed
qed

lemma binary64_round_pow2: "- 1022 \<le> b \<Longrightarrow> binary64_round (pow2 b) = pow2 b"
  using binary64_round_lower [of b "pow2 b"] binary64_round_upper [of "pow2 b" b]
  by (simp add: less_imp_le)

lemma binary64_round_abs_upper:
  assumes "\<bar>x\<bar> \<le> pow2 b" and "- 1022 \<le> b"
  shows "\<bar>binary64_round x\<bar> \<le> pow2 b"
proof (cases "0 \<le> x")
  case True
  with assms binary64_round_upper [of x b] binary64_round_nonneg [of x]
  show ?thesis by simp
next
  case False
  then have "0 \<le> - x" and "- x \<le> pow2 b" using assms(1) by simp_all
  with assms(2) binary64_round_upper [of "- x" b] binary64_round_nonneg [of "- x"]
  show ?thesis by (simp add: binary64_round_minus)
qed



lemma binary64_round_nonpos: "x \<le> 0 \<Longrightarrow> binary64_round x \<le> 0"
  using binary64_round_nonneg [of "- x"] by (simp add: binary64_round_minus)

lemma round_result_finite:
  assumes "\<bar>x\<bar> \<le> pow2 b" and "- 1022 \<le> b" and "b \<le> 1023"
  shows "round_result x = Finite (binary64_round x)" and "\<bar>binary64_round x\<bar> \<le> pow2 b"
proof -
  show le: "\<bar>binary64_round x\<bar> \<le> pow2 b"
    using assms(1,2) by (rule binary64_round_abs_upper)
  have "pow2 b \<le> pow2 1023" using assms(3) by simp
  also have "pow2 1023 = 2 ^ 1023" by (simp add: pow2_def)
  also have "(2::real) ^ 1023 < 2 ^ 1024" by (rule power_strict_increasing) simp_all
  finally have "pow2 b < 2 ^ 1024" .
  with le have "\<bar>binary64_round x\<bar> < 2 ^ 1024" by linarith
  then have "\<not> 2 ^ 1024 \<le> binary64_round x" and "\<not> binary64_round x \<le> - (2 ^ 1024)"
    by linarith+
  then show "round_result x = Finite (binary64_round x)"
    by (simp only: round_result_def if_False)
qed

text \<open>Values just below a power of two: rounding does not reach the power.\<close>

lemma binary64_round_below_pow2:
  assumes "0 \<le> y" and "y \<le> pow2 (b + 1) - pow2 (b - 52)" and "- 1022 \<le> b"
  shows "binary64_round y \<le> pow2 (b + 1) - pow2 (b - 52)"
proof (cases "y \<le> pow2 b")
  case True
  then have "binary64_round y \<le> pow2 b"
    using assms(1,3) by (intro binary64_round_upper)
  moreover have "pow2 (b - 52) \<le> pow2 b" by simp
  moreover have "pow2 (b + 1) = 2 * pow2 b" by (rule pow2_Suc)
  ultimately show ?thesis by linarith
next
  case False
  then have lo: "pow2 b \<le> \<bar>y\<bar>" using assms(1) by simp
  have "0 < pow2 (b - 52)" by simp
  with assms(2) have hi: "\<bar>y\<bar> < pow2 (b + 1)" using assms(1) by linarith
  from lo hi have "binary_exponent y = b" by (rule binary_exponent_unique)
  moreover from assms(3) have "max b (- 1022) = b" by simp
  ultimately have q: "binary64_quantum y = pow2 (b - 52)"
    by (simp only: binary64_quantum_def)
  have eq: "pow2 (b + 1) - pow2 (b - 52) = of_int (2 ^ 53 - 1) * pow2 (b - 52)"
    using pow2_53_quantum [of b] by (simp add: algebra_simps)
  have "y \<le> of_int (2 ^ 53 - 1) * binary64_quantum y"
    using assms(2) by (simp only: q eq)
  then have "binary64_round y \<le> of_int (2 ^ 53 - 1) * binary64_quantum y"
    by (rule binary64_round_le)
  then show ?thesis by (simp only: q eq)
qed

text \<open>A binary64 value below one is at most \<open>1 - 2^-53\<close>.\<close>

lemma binary64_value_below_1:
  assumes "binary64_round t = t" and "0 < t" and "t < 1"
  shows "t \<le> 1 - pow2 (- 53)"
proof -
  have nz: "t \<noteq> 0" using assms(2) by simp
  let ?e = "binary_exponent t"
  let ?E = "max ?e (- 1022)"
  from binary_exponent_bounds [OF nz] assms(2)
  have lo: "pow2 ?e \<le> t" and hi: "t < pow2 (?e + 1)" by simp_all
  from lo assms(3) have "pow2 ?e < pow2 0" by simp
  then have e: "?e < 0" by (simp only: pow2_less_iff)
  then have E: "?E \<le> - 1" by simp
  have q: "binary64_quantum t = pow2 (?E - 52)" by (simp add: binary64_quantum_def)
  define k where "k = round_half_even (t / binary64_quantum t)"
  have t: "t = of_int k * pow2 (?E - 52)"
    using assms(1) by (simp add: binary64_round_def k_def q)
  have "pow2 (?e + 1) \<le> pow2 (?E + 1)" by simp
  with hi have "t < pow2 (?E + 1)" by linarith
  then have "of_int k * pow2 (?E - 52) < of_int (2 ^ 53) * pow2 (?E - 52)"
    using t by (simp only: pow2_53_quantum [symmetric])
  then have "real_of_int k < real_of_int (2 ^ 53)"
    by (simp only: mult_less_cancel_right_pos pow2_pos)
  then have "k \<le> 2 ^ 53 - 1" by simp
  then have "real_of_int k \<le> real_of_int (2 ^ 53 - 1)" by (simp only: of_int_le_iff)
  then have "of_int k * pow2 (?E - 52) \<le> of_int (2 ^ 53 - 1) * pow2 (?E - 52)"
    by (rule mult_right_mono) (simp add: less_imp_le)
  also have "\<dots> \<le> of_int (2 ^ 53 - 1) * pow2 (- 53)"
    using E by (intro mult_left_mono) simp_all
  also have "\<dots> = 1 - pow2 (- 53)"
    by (simp add: pow2_def)
  finally show ?thesis using t by simp
qed

section \<open>Facts about the conversion to a 64-bit integer\<close>

lemma trunc_toward_zero_spec:
  "\<bar>real_of_int (trunc_toward_zero r)\<bar> \<le> \<bar>r\<bar>
   \<and> \<bar>r\<bar> < \<bar>real_of_int (trunc_toward_zero r)\<bar> + 1
   \<and> 0 \<le> real_of_int (trunc_toward_zero r) * r"
proof (cases "0 \<le> r")
  case True
  then have "0 \<le> \<lfloor>r\<rfloor>" by simp
  then have "0 \<le> real_of_int \<lfloor>r\<rfloor>" by simp
  moreover have "real_of_int \<lfloor>r\<rfloor> \<le> r" and "r < real_of_int \<lfloor>r\<rfloor> + 1" by linarith+
  ultimately show ?thesis using True by (simp add: trunc_toward_zero_def)
next
  case False
  then have "\<lceil>r\<rceil> \<le> 0" by (simp add: ceiling_le_iff)
  then have c: "real_of_int \<lceil>r\<rceil> \<le> 0" by simp
  have "r \<le> real_of_int \<lceil>r\<rceil>" by (rule le_of_int_ceiling)
  moreover have "real_of_int \<lceil>r\<rceil> - 1 < r" by linarith
  ultimately show ?thesis using c False
    by (simp add: trunc_toward_zero_def mult_nonpos_nonpos)
qed

lemma sint_word_of_int_representable:
  "int64_representable z \<Longrightarrow> sint (word_of_int z :: int64_t) = z"
  by (simp add: int64_representable_def sint_sbintrunc' signed_take_bit_int_eq_self)

lemma int64_representable_trunc:
  assumes "- pow2 63 \<le> p" and "p < pow2 63"
  shows "int64_representable (trunc_toward_zero p)"
proof (cases "0 \<le> p")
  case True
  have "p < real_of_int (2 ^ 63)" using assms(2) by (simp add: pow2_def)
  then have "\<lfloor>p\<rfloor> < 2 ^ 63" by (simp only: floor_less_iff)
  moreover have "0 \<le> \<lfloor>p\<rfloor>" using True by simp
  ultimately show ?thesis
    using True by (simp add: int64_representable_def trunc_toward_zero_def)
next
  case False
  have "real_of_int (- (2 ^ 63)) \<le> p" using assms(1) by (simp add: pow2_def)
  then have "- (2 ^ 63) \<le> \<lceil>p\<rceil>" by (simp add: le_ceiling_iff)
  moreover have "\<lceil>p\<rceil> \<le> 0" using False by (simp add: ceiling_le_iff)
  ultimately show ?thesis
    using False by (simp add: int64_representable_def trunc_toward_zero_def)
qed

lemma double_of_int_representable:
  assumes "int64_representable d"
  shows "double_of_int d = Finite (binary64_round (real_of_int d))"
    and "\<bar>binary64_round (real_of_int d)\<bar> \<le> pow2 63"
proof -
  have "- (2 ^ 63) \<le> d" and "d < 2 ^ 63"
    using assms by (simp_all add: int64_representable_def)
  then have "real_of_int (- (2 ^ 63)) \<le> real_of_int d" and "real_of_int d < real_of_int (2 ^ 63)"
    by (simp_all only: of_int_le_iff of_int_less_iff)
  then have "\<bar>real_of_int d\<bar> \<le> pow2 63" by (simp add: pow2_def)
  then show "double_of_int d = Finite (binary64_round (real_of_int d))"
    and "\<bar>binary64_round (real_of_int d)\<bar> \<le> pow2 63"
    unfolding double_of_int_def by (rule round_result_finite; simp)+
qed

text \<open>The product of a 64-bit count and a binary64 factor strictly between 0 and 1 is finite,
  and its truncation is again a 64-bit count.\<close>

lemma scaled_count_fits:
  assumes "int64_representable d" and "binary64_value x" and "0 < x" and "x < 1"
  shows "double_mul (double_of_int d) (Finite x)
           = Finite (binary64_round (binary64_round (real_of_int d) * x))"
    and "int64_representable
           (trunc_toward_zero (binary64_round (binary64_round (real_of_int d) * x)))"
proof -
  let ?D = "binary64_round (real_of_int d)"
  let ?P = "binary64_round (?D * x)"
  note D = double_of_int_representable [OF assms(1)]
  have "\<bar>?D * x\<bar> = \<bar>?D\<bar> * x" using assms(3) by (simp add: abs_mult)
  also have "\<dots> \<le> \<bar>?D\<bar> * 1" using assms(4) by (intro mult_left_mono) simp_all
  finally have Dx: "\<bar>?D * x\<bar> \<le> pow2 63" using D(2) by simp
  from round_result_finite [OF Dx]
  have fin: "round_result (?D * x) = Finite ?P" and P: "\<bar>?P\<bar> \<le> pow2 63" by simp_all
  show "double_mul (double_of_int d) (Finite x) = Finite ?P"
    by (simp add: D(1) fin)
  have x: "x \<le> 1 - pow2 (- 53)"
    using assms(2-4) by (intro binary64_value_below_1) (simp_all add: binary64_value_def)
  have "?P < pow2 63"
  proof (cases "0 \<le> ?D * x")
    case True
    then have "0 \<le> ?D" using assms(3) by (simp add: zero_le_mult_iff)
    then have "?D \<le> pow2 63" using D(2) by simp
    then have "?D * x \<le> pow2 63 * (1 - pow2 (- 53))"
      using x \<open>0 \<le> ?D\<close> assms(3) by (intro mult_mono) simp_all
    also have "\<dots> = pow2 (62 + 1) - pow2 (62 - 52)" by (simp add: pow2_def)
    finally have "?P \<le> pow2 (62 + 1) - pow2 (62 - 52)"
      using True by (intro binary64_round_below_pow2) simp_all
    then show ?thesis by (simp add: pow2_def)
  next
    case False
    then have "?P \<le> 0" by (intro binary64_round_nonpos) simp
    moreover have "0 < pow2 63" by simp
    ultimately show ?thesis by linarith
  qed
  moreover have "- pow2 63 \<le> ?P" using P by linarith
  ultimately show "int64_representable (trunc_toward_zero ?P)"
    by (intro int64_representable_trunc)
qed

section \<open>Facts about the visitors\<close>

lemma double_between_0_1:
  "double_lt (Finite 0) t \<and> double_lt t (Finite 1) \<longleftrightarrow> (\<exists>x. t = Finite x \<and> 0 < x \<and> x < 1)"
  by (cases t) simp_all

text \<open>The equations that evaluate the arithmetic on numerals.\<close>

lemmas visitor_defs = is_property_null_def property_underlying_type_def
  RetrieveUnderlyingType_new_def

lemmas timestamp_defs = call_Timestamp_def Timestamp_minus_def total_microseconds_def
  Timestamp_plus_def microseconds_def Let_def

lemmas binary64_eval = binary_exponent_def round_half_even_def binary64_quantum_def
  binary64_round_def round_result_def compute_bitlen pow2_def double_of_int_def
  double_of_int64_def double_literal_def trunc_toward_zero_def int64_representable_def


lemma binary64_value_half: "binary64_value (1/2)"
  by (simp add: binary64_value_def binary64_eval)

lemma binary64_value_quarter: "binary64_value (1/4)"
  by (simp add: binary64_value_def binary64_eval)

lemma int64_representable_sint: "int64_representable (sint (w :: int64_t))"
  using sint_ge [of w] sint_lt [of w] by (simp add: int64_representable_def)

text \<open>A positive 64-bit count halved in binary64 and truncated lies below the count, and is at
  least one when the count is at least two.\<close>

lemma halved_count_bounds:
  assumes "1 \<le> d" and "int64_representable d"
  shows "0 \<le> trunc_toward_zero (binary64_round (binary64_round (real_of_int d) * (1/2)))"
    and "trunc_toward_zero (binary64_round (binary64_round (real_of_int d) * (1/2))) < d"
    and "2 \<le> d \<Longrightarrow>
           1 \<le> trunc_toward_zero (binary64_round (binary64_round (real_of_int d) * (1/2)))"
proof -
  let ?x = "real_of_int d"
  let ?D = "binary64_round ?x"
  let ?P = "binary64_round (?D * (1/2))"
  let ?e = "binary_exponent ?x"
  have pos: "0 < ?x" using assms(1) by simp
  then have nz: "?x \<noteq> 0" by simp
  from binary_exponent_bounds [OF nz] pos
  have lo: "pow2 ?e \<le> ?x" and hi: "?x < pow2 (?e + 1)" by simp_all
  have "pow2 0 \<le> ?x" using assms(1) by simp
  with hi have "pow2 0 < pow2 (?e + 1)" by linarith
  then have "0 < ?e + 1" by (simp only: pow2_less_iff)
  then have e0: "0 \<le> ?e" by simp
  have Dlo: "pow2 ?e \<le> ?D" using lo e0 by (intro binary64_round_lower) simp_all
  have Dhi: "?D \<le> pow2 (?e + 1)"
    using hi pos e0 by (intro binary64_round_upper) simp_all
  have half: "pow2 ?e = 2 * pow2 (?e - 1)" using pow2_Suc [of "?e - 1"] by simp
  have Hlo: "pow2 (?e - 1) \<le> ?D * (1/2)" using Dlo half by simp
  have Hhi: "?D * (1/2) \<le> pow2 ?e" using Dhi pow2_Suc [of ?e] by simp
  have Plo: "pow2 (?e - 1) \<le> ?P" using Hlo e0 by (intro binary64_round_lower) simp_all
  have "0 \<le> ?D * (1/2)" using Hlo pow2_pos [of "?e - 1"] by linarith
  then have Phi: "?P \<le> pow2 ?e" using Hhi e0 by (intro binary64_round_upper) simp_all
  have P0: "0 \<le> ?P" using Plo pow2_pos [of "?e - 1"] by linarith
  then have tr: "trunc_toward_zero ?P = \<lfloor>?P\<rfloor>" by (simp add: trunc_toward_zero_def)
  show "0 \<le> trunc_toward_zero ?P" unfolding tr using P0 by simp
  show "trunc_toward_zero ?P < d"
  proof (rule ccontr)
    assume "\<not> trunc_toward_zero ?P < d"
    then have "d \<le> \<lfloor>?P\<rfloor>" unfolding tr by simp
    then have "?x \<le> ?P" by (simp add: le_floor_iff)
    with Phi lo have eq: "?x = pow2 ?e" and Pe: "?P = pow2 ?e" by linarith+
    have "binary64_round (pow2 ?e) = pow2 ?e"
      using e0 by (intro binary64_round_pow2) simp
    then have De: "?D = pow2 ?e" by (simp only: eq [symmetric])
    have "?D * (1/2) = pow2 (?e - 1)" unfolding De using half by simp
    then have "?P = binary64_round (pow2 (?e - 1))" by (simp only:)
    also have "\<dots> = pow2 (?e - 1)" using e0 by (intro binary64_round_pow2) simp
    finally have "?P = pow2 (?e - 1)" .
    with Pe have "pow2 ?e = pow2 (?e - 1)" by simp
    then show False using pow2_less_iff [of "?e - 1" ?e] by simp
  qed
  show "1 \<le> trunc_toward_zero ?P" if "2 \<le> d"
  proof -
    have "pow2 1 \<le> ?x" using that by simp
    with hi have "pow2 1 < pow2 (?e + 1)" by linarith
    then have "1 < ?e + 1" by (simp only: pow2_less_iff)
    then have "0 \<le> ?e - 1" by simp
    then have "pow2 0 \<le> pow2 (?e - 1)" by (simp only: pow2_le_iff)
    with Plo have "1 \<le> ?P" by simp
    then show ?thesis unfolding tr by (simp add: le_floor_iff)
  qed
qed

text \<open>The sum computed by the integer overload is finite for every interpolant strictly
  between 0 and 1.\<close>

lemma integer_blend_finite:
  assumes "0 < x" and "x < 1"
  shows "\<exists>p. double_add (double_mul (double_sub (Finite 1) (Finite x)) (double_of_int64 value1))
                         (double_add (Finite x) (double_of_int64 value2)) = Finite p"
proof -
  let ?a = "binary64_round (1 - x)"
  let ?D1 = "binary64_round (real_of_int (sint value1))"
  let ?D2 = "binary64_round (real_of_int (sint value2))"
  let ?m = "binary64_round (?a * ?D1)"
  let ?s = "binary64_round (x + ?D2)"
  have "\<bar>1 - x\<bar> \<le> pow2 0" using assms by simp
  from round_result_finite [OF this]
  have a: "round_result (1 - x) = Finite ?a" and a1: "\<bar>?a\<bar> \<le> 1" by simp_all
  note D1 = double_of_int_representable [OF int64_representable_sint [of value1]]
  note D2 = double_of_int_representable [OF int64_representable_sint [of value2]]
  have "\<bar>?a * ?D1\<bar> = \<bar>?a\<bar> * \<bar>?D1\<bar>" by (rule abs_mult)
  also have "\<dots> \<le> 1 * pow2 63" using a1 D1(2) by (intro mult_mono) simp_all
  finally have "\<bar>?a * ?D1\<bar> \<le> pow2 63" by simp
  from round_result_finite [OF this]
  have m: "round_result (?a * ?D1) = Finite ?m" and m1: "\<bar>?m\<bar> \<le> pow2 63" by simp_all
  have "pow2 64 = 2 * pow2 63" using pow2_Suc [of 63] by simp
  moreover have "1 \<le> pow2 63" using pow2_le_iff [of 0 63] by simp
  ultimately have "\<bar>x + ?D2\<bar> \<le> pow2 64" using assms D2(2) by linarith
  from round_result_finite [OF this]
  have s: "round_result (x + ?D2) = Finite ?s" and s1: "\<bar>?s\<bar> \<le> pow2 64" by simp_all
  have "pow2 65 = 2 * pow2 64" using pow2_Suc [of 64] by simp
  moreover have "pow2 63 \<le> pow2 64" by simp
  ultimately have "\<bar>?m + ?s\<bar> \<le> pow2 65" using m1 s1 by linarith
  from round_result_finite [OF this]
  have fin: "round_result (?m + ?s) = Finite (binary64_round (?m + ?s))" by simp
  have "double_add (double_mul (double_sub (Finite 1) (Finite x)) (double_of_int64 value1))
                   (double_add (Finite x) (double_of_int64 value2))
          = Finite (binary64_round (?m + ?s))"
    by (simp only: double_of_int64_def D1(1) D2(1) double_sub.simps double_mul.simps
        double_add.simps a m s fin)
  then show ?thesis ..
qed

section \<open>The type tag and the null test\<close>

text \<open>
  C4. \<open>property_underlying_type\<close> maps every live alternative of a value to its tag: a real to
  \<open>TYPE_REAL\<close>, a string to \<open>TYPE_STRING\<close>, a timestamp to \<open>TYPE_TIMESTAMP\<close>, an integer to
  \<open>TYPE_INTEGER\<close>, and a typed null to \<open>TYPE_NULL\<close> whatever its expected type; no value is left
  at the visitor's initial \<open>TYPE_UNKNOWN\<close>. \<open>is_property_null v\<close> is true exactly when the tag of
  \<open>v\<close> is \<open>TYPE_NULL\<close>, so it is true of every typed null.
\<close>

theorem property_underlying_type_exhaustive:
  "property_underlying_type (RealVal d) = TYPE_REAL
   \<and> property_underlying_type (StringVal s) = TYPE_STRING
   \<and> property_underlying_type (TimestampVal ts) = TYPE_TIMESTAMP
   \<and> property_underlying_type (IntegerVal i) = TYPE_INTEGER
   \<and> property_underlying_type (NullVal \<lparr>ExpectedType = ty\<rparr>) = TYPE_NULL
   \<and> property_underlying_type v \<noteq> TYPE_UNKNOWN
   \<and> is_property_null v = (property_underlying_type v = TYPE_NULL)
   \<and> is_property_null (NullVal \<lparr>ExpectedType = ty\<rparr>)"
proof -
  have "property_underlying_type v \<noteq> TYPE_UNKNOWN"
    by (cases v) (simp_all add: visitor_defs)
  then show ?thesis
    by (simp add: visitor_defs)
qed

section \<open>The boundary shortcut\<close>

text \<open>
  C5. For every pair of values, of any tags, matching or not, and every double \<open>t\<close>: if
  \<open>t \<le> 0\<close> then \<open>interpolate_property\<close> returns the first value unchanged, and if \<open>t \<ge> 1\<close> it
  returns the second value unchanged; the visitor is not applied and no tag is looked at.
\<close>

theorem interpolate_property_boundary:
  "(double_le t (Finite 0) \<longrightarrow> interpolate_property first second t = Inr first)
   \<and> (double_ge t (Finite 1) \<longrightarrow> interpolate_property first second t = Inr second)"
  by (cases t) (simp_all add: interpolate_property_def double_ge_def)

theorem interpolate_property_boundary_witness:
  "double_le (Finite 0) (Finite 0) \<and> double_ge (Finite 1) (Finite 1)
   \<and> interpolate_property (RealVal (Finite 3)) (StringVal ''B'') (Finite 0)
       = Inr (RealVal (Finite 3))
   \<and> interpolate_property (RealVal (Finite 3)) (StringVal ''B'') (Finite 1)
       = Inr (StringVal ''B'')"
  using interpolate_property_boundary [of "Finite 0" "RealVal (Finite 3)" "StringVal ''B''"]
        interpolate_property_boundary [of "Finite 1" "RealVal (Finite 3)" "StringVal ''B''"]
  by (simp add: double_ge_def)

section \<open>Interpolation by the tag of the first value\<close>

text \<open>
  C6. When the first value is a typed null and \<open>0 < t < 1\<close>, \<open>interpolate_property\<close> returns the
  first value if \<open>t < 0.5\<close> and otherwise the second value as it is, whatever its tag. In
  particular a null and the real 5.0 give the real 5.0 at 0.9 and the null at 0.1.
\<close>

theorem interpolate_property_null_first:
  "(double_lt (Finite 0) t \<and> double_lt t (Finite 1) \<longrightarrow>
      interpolate_property (NullVal n) second t
        = Inr (if double_lt t (Finite (1/2)) then NullVal n else second))
   \<and> interpolate_property (NullVal n) (RealVal (Finite 5)) (double_literal (9/10))
       = Inr (RealVal (Finite 5))
   \<and> interpolate_property (NullVal n) (RealVal (Finite 5)) (double_literal (1/10))
       = Inr (NullVal n)"
  by (cases t)
     (simp_all add: interpolate_property_def double_ge_def call_NullValue_def binary64_eval)

theorem interpolate_property_null_first_witness:
  "double_lt (Finite 0) (Finite (1/2)) \<and> double_lt (Finite (1/2)) (Finite 1)
   \<and> interpolate_property (NullVal \<lparr>ExpectedType = TYPE_STRING\<rparr>) (TimestampVal 7) (Finite (1/2))
       = Inr (TimestampVal 7)"
  using interpolate_property_null_first
          [of "Finite (1/2)" "\<lparr>ExpectedType = TYPE_STRING\<rparr>" "TimestampVal 7"]
  by simp

text \<open>
  C1. According to the specification, for a real first value, a typed null as second value and
  \<open>0 < t < 1\<close>, \<open>interpolate_property\<close> returns the first value when \<open>t < 0.5\<close> and the second
  otherwise. The overload for \<^verbatim>\<open>double\<close> is the only one that reads the second value with
  \<^verbatim>\<open>boost::get\<close> before any null test, so here the call ends in \<^verbatim>\<open>boost::bad_get\<close>
  on either side of the midpoint.
\<close>

theorem interpolate_property_real_null_bad_get:
  "interpolate_property (RealVal (Finite 1)) (NullVal \<lparr>ExpectedType = TYPE_REAL\<rparr>) (Finite (1/4))
     = Inl bad_get
   \<and> interpolate_property (RealVal (Finite 1)) (NullVal \<lparr>ExpectedType = TYPE_REAL\<rparr>) (Finite (3/4))
     = Inl bad_get"
  by (simp add: interpolate_property_def double_ge_def call_double_def)

text \<open>
  C8. For two string values and \<open>0 < t < 1\<close>, \<open>interpolate_property\<close> returns the first string
  when \<open>t < 0.5\<close> and the second otherwise; a string and a typed null are selected by the same rule.
  Strings are never blended: at 0.49 the result is the first string and at 0.51 the second.
\<close>

theorem interpolate_property_string:
  "(double_lt (Finite 0) t \<and> double_lt t (Finite 1) \<longrightarrow>
      interpolate_property (StringVal s1) (StringVal s2) t
        = Inr (if double_lt t (Finite (1/2)) then StringVal s1 else StringVal s2)
      \<and> interpolate_property (StringVal s1) (NullVal n) t
        = Inr (if double_lt t (Finite (1/2)) then StringVal s1 else NullVal n))
   \<and> interpolate_property (StringVal s1) (StringVal s2) (double_literal (49/100))
       = Inr (StringVal s1)
   \<and> interpolate_property (StringVal s1) (StringVal s2) (double_literal (51/100))
       = Inr (StringVal s2)"
  by (cases t)
     (simp_all add: interpolate_property_def double_ge_def call_string_def
        visitor_defs binary64_eval)

theorem interpolate_property_string_witness:
  "double_lt (Finite 0) (double_literal (3/10)) \<and> double_lt (double_literal (3/10)) (Finite 1)
   \<and> interpolate_property (StringVal ''A'') (StringVal ''B'') (double_literal (3/10))
       = Inr (StringVal ''A'')
   \<and> interpolate_property (StringVal ''A'') (NullVal \<lparr>ExpectedType = TYPE_STRING\<rparr>)
         (double_literal (3/10))
       = Inr (StringVal ''A'')"
  using interpolate_property_string
          [of "double_literal (3/10)" "''A''" "''B''" "\<lparr>ExpectedType = TYPE_STRING\<rparr>"]
  by (simp add: binary64_eval)

section \<open>Integers\<close>

text \<open>
  C3, as stated: for two integer values and every \<open>0 < t < 1\<close>, \<open>interpolate_property\<close> returns the
  \<^verbatim>\<open>int64_t\<close> truncation of \<open>(1 - t) * value1 + (t + value2)\<close>. At 0, \<open>2^63 - 1\<close> and
  \<open>t = 0.5\<close> the sum is \<open>2^63\<close> in binary64, which no \<^verbatim>\<open>int64_t\<close> holds: the conversion has
  no defined result and nothing is returned.
\<close>

theorem interpolate_property_integer_overflow:
  "double_lt (Finite 0) (Finite (1/2)) \<and> double_lt (Finite (1/2)) (Finite 1)
   \<and> interpolate_property (IntegerVal 0) (IntegerVal 9223372036854775807) (Finite (1/2))
       = Inl cast_out_of_range"
  by (simp add: interpolate_property_def double_ge_def call_int64_def visitor_defs
      binary64_eval)

text \<open>
  C3, amended: for two integer values and every \<open>0 < t < 1\<close>, the binary64 value \<open>p\<close> of
  \<open>(1 - t) * value1 + (t + value2)\<close>, each operation rounded, is finite, and whenever its
  truncation toward zero \<open>m\<close> (the integer with \<open>|m| \<le> |p| < |m| + 1\<close> and the sign of \<open>p\<close>) fits
  64 bits, \<open>interpolate_property\<close> returns the integer \<open>m\<close>. This is not the linear blend
  \<open>(1 - t) * value1 + t * value2\<close>: at 10, 20 and \<open>t = 0.25\<close> the result is 27, where the linear
  blend converts to 12. Further instances: \<open>-10\<close>, 0 at 0.25 give \<open>-7\<close> (from \<open>-7.25\<close>); 11, 0 at
  the double 0.3 give 7 (the binary64 sum is just below 8); \<open>2^53 + 1\<close>, 0 at 0.5 give \<open>2^52\<close>.
\<close>

theorem interpolate_property_integer_formula:
  "(double_lt (Finite 0) t \<and> double_lt t (Finite 1) \<longrightarrow>
      (\<exists>p m. double_add (double_mul (double_sub (Finite 1) t) (double_of_int64 value1))
                        (double_add t (double_of_int64 value2)) = Finite p
         \<and> \<bar>real_of_int m\<bar> \<le> \<bar>p\<bar> \<and> \<bar>p\<bar> < \<bar>real_of_int m\<bar> + 1 \<and> 0 \<le> real_of_int m * p
         \<and> (int64_representable m \<longrightarrow>
               interpolate_property (IntegerVal value1) (IntegerVal value2) t
                 = Inr (IntegerVal (word_of_int m))
               \<and> sint (word_of_int m :: int64_t) = m)))
   \<and> interpolate_property (IntegerVal 10) (IntegerVal 20) (Finite (1/4)) = Inr (IntegerVal 27)
   \<and> static_cast_int64
         (double_add (double_mul (double_sub (Finite 1) (Finite (1/4))) (double_of_int64 10))
                     (double_mul (Finite (1/4)) (double_of_int64 20))) = Inr 12
   \<and> interpolate_property (IntegerVal (- 10)) (IntegerVal 0) (Finite (1/4))
       = Inr (IntegerVal (- 7))
   \<and> double_literal (3/10) = Finite (5404319552844595/18014398509481984)
   \<and> interpolate_property (IntegerVal 11) (IntegerVal 0) (double_literal (3/10))
       = Inr (IntegerVal 7)
   \<and> interpolate_property (IntegerVal 9007199254740993) (IntegerVal 0) (Finite (1/2))
       = Inr (IntegerVal 4503599627370496)"
proof -
  have gen: "\<exists>p m. double_add (double_mul (double_sub (Finite 1) t) (double_of_int64 value1))
                        (double_add t (double_of_int64 value2)) = Finite p
         \<and> \<bar>real_of_int m\<bar> \<le> \<bar>p\<bar> \<and> \<bar>p\<bar> < \<bar>real_of_int m\<bar> + 1 \<and> 0 \<le> real_of_int m * p
         \<and> (int64_representable m \<longrightarrow>
               interpolate_property (IntegerVal value1) (IntegerVal value2) t
                 = Inr (IntegerVal (word_of_int m))
               \<and> sint (word_of_int m :: int64_t) = m)"
    if t: "double_lt (Finite 0) t" "double_lt t (Finite 1)"
  proof -
    from t obtain x where x: "t = Finite x" "0 < x" "x < 1"
      using double_between_0_1 [of t] by blast
    from integer_blend_finite [OF x(2,3), of value1 value2] obtain p where
      p: "double_add (double_mul (double_sub (Finite 1) t) (double_of_int64 value1))
                     (double_add t (double_of_int64 value2)) = Finite p"
      unfolding x(1) by blast
    have "interpolate_property (IntegerVal value1) (IntegerVal value2) t
            = Inr (IntegerVal (word_of_int (trunc_toward_zero p)))"
      if "int64_representable (trunc_toward_zero p)"
      using that x(2,3) p unfolding x(1)
      by (simp add: interpolate_property_def double_ge_def call_int64_def visitor_defs)
    with p trunc_toward_zero_spec [of p] sint_word_of_int_representable [of "trunc_toward_zero p"]
    show ?thesis by blast
  qed
  have i1: "interpolate_property (IntegerVal 10) (IntegerVal 20) (Finite (1/4))
              = Inr (IntegerVal 27)"
    by (simp add: interpolate_property_def double_ge_def call_int64_def visitor_defs
        binary64_eval)
  have i2: "static_cast_int64
         (double_add (double_mul (double_sub (Finite 1) (Finite (1/4))) (double_of_int64 10))
                     (double_mul (Finite (1/4)) (double_of_int64 20))) = Inr 12"
    by (simp add: binary64_eval)
  have i3: "interpolate_property (IntegerVal (- 10)) (IntegerVal 0) (Finite (1/4))
       = Inr (IntegerVal (- 7))"
    by (simp add: interpolate_property_def double_ge_def call_int64_def visitor_defs
        binary64_eval)
  have l: "double_literal (3/10) = Finite (5404319552844595/18014398509481984)"
    by (simp add: binary64_eval)
  have i4: "interpolate_property (IntegerVal 11) (IntegerVal 0) (double_literal (3/10))
       = Inr (IntegerVal 7)"
    unfolding l
    by (simp add: interpolate_property_def double_ge_def call_int64_def visitor_defs
        binary64_eval)
  have i5: "interpolate_property (IntegerVal 9007199254740993) (IntegerVal 0) (Finite (1/2))
       = Inr (IntegerVal 4503599627370496)"
    by (simp add: interpolate_property_def double_ge_def call_int64_def visitor_defs
        binary64_eval)
  from gen i1 i2 i3 l i4 i5 show ?thesis by blast
qed

theorem interpolate_property_integer_formula_witness:
  "double_lt (Finite 0) (Finite (1/2)) \<and> double_lt (Finite (1/2)) (Finite 1)
   \<and> double_add (double_mul (double_sub (Finite 1) (Finite (1/2))) (double_of_int64 4))
                 (double_add (Finite (1/2)) (double_of_int64 9)) = Finite (23/2)
   \<and> int64_representable 11
   \<and> interpolate_property (IntegerVal 4) (IntegerVal 9) (Finite (1/2)) = Inr (IntegerVal 11)"
proof -
  have a: "double_lt (Finite 0) (Finite (1/2)) \<and> double_lt (Finite (1/2)) (Finite 1)" by simp
  have p: "double_add (double_mul (double_sub (Finite 1) (Finite (1/2))) (double_of_int64 4))
                 (double_add (Finite (1/2)) (double_of_int64 9)) = Finite (23/2)"
    by (simp add: binary64_eval)
  have c: "int64_representable 11" by (simp add: int64_representable_def)
  from interpolate_property_integer_formula [of "Finite (1/2)" 4 9] a
  obtain q m where
    q: "double_add (double_mul (double_sub (Finite 1) (Finite (1/2))) (double_of_int64 4))
                   (double_add (Finite (1/2)) (double_of_int64 9)) = Finite q"
    and m: "\<bar>real_of_int m\<bar> \<le> \<bar>q\<bar>" "\<bar>q\<bar> < \<bar>real_of_int m\<bar> + 1" "0 \<le> real_of_int m * q"
    and r: "int64_representable m \<longrightarrow>
              interpolate_property (IntegerVal 4) (IntegerVal 9) (Finite (1/2))
                = Inr (IntegerVal (word_of_int m))"
    by auto
  from p q have "q = 23/2" by simp
  with m have "m = 11"
    by (auto simp add: zero_le_mult_iff)
  with r c have "interpolate_property (IntegerVal 4) (IntegerVal 9) (Finite (1/2))
                = Inr (IntegerVal 11)" by simp
  with a p c show ?thesis by simp
qed

section \<open>Timestamps\<close>

text \<open>
  C7. For two timestamp values whose distance is a 64-bit count of microseconds and every double
  \<open>0 < t < 1\<close>, \<open>interpolate_property\<close> takes the signed duration \<open>second - first\<close>, scales its
  microsecond count by \<open>t\<close> in binary64 (the product \<open>p\<close> is finite), truncates the product to the
  whole count \<open>m\<close> toward zero (\<open>|m| \<le> |p| < |m| + 1\<close>, with the sign of \<open>p\<close>) and returns
  \<open>first + m\<close>. Sixty seconds apart, \<open>t = 0.5\<close> gives the instant thirty seconds after the first;
  ten microseconds at 0.75 give seven forward and seven backward; ten microseconds at the double
  0.7 give seven, the binary64 product being exactly 7. A timestamp and a typed null snap: the
  first value when \<open>t < 0.5\<close>, the null otherwise.
\<close>

theorem interpolate_property_timestamp:
  "(double_lt (Finite 0) t \<and> double_lt t (Finite 1) \<longrightarrow>
      interpolate_property (TimestampVal first) (NullVal n) t
        = Inr (if double_lt t (Finite (1/2)) then TimestampVal first else NullVal n)
      \<and> (is_binary64 t \<and> int64_representable (second - first) \<longrightarrow>
           (\<exists>p m. double_mul (double_of_int (second - first)) t = Finite p
              \<and> \<bar>real_of_int m\<bar> \<le> \<bar>p\<bar> \<and> \<bar>p\<bar> < \<bar>real_of_int m\<bar> + 1 \<and> 0 \<le> real_of_int m * p
              \<and> interpolate_property (TimestampVal first) (TimestampVal second) t
                  = Inr (TimestampVal (first + m)))))
   \<and> interpolate_property (TimestampVal T0) (TimestampVal (T0 + 60000000)) (Finite (1/2))
       = Inr (TimestampVal (T0 + 30000000))
   \<and> interpolate_property (TimestampVal 0) (TimestampVal 10) (Finite (3/4))
       = Inr (TimestampVal 7)
   \<and> interpolate_property (TimestampVal 10) (TimestampVal 0) (Finite (3/4))
       = Inr (TimestampVal 3)
   \<and> double_literal (7/10) = Finite (3152519739159347/4503599627370496)
   \<and> interpolate_property (TimestampVal 0) (TimestampVal 10) (double_literal (7/10))
       = Inr (TimestampVal 7)"
proof -
  have null: "interpolate_property (TimestampVal first) (NullVal n) t
        = Inr (if double_lt t (Finite (1/2)) then TimestampVal first else NullVal n)"
    if "double_lt (Finite 0) t" and "double_lt t (Finite 1)"
    using that
    by (cases t)
       (simp_all add: interpolate_property_def double_ge_def call_Timestamp_def visitor_defs)
  have gen: "\<exists>p m. double_mul (double_of_int (second - first)) t = Finite p
              \<and> \<bar>real_of_int m\<bar> \<le> \<bar>p\<bar> \<and> \<bar>p\<bar> < \<bar>real_of_int m\<bar> + 1 \<and> 0 \<le> real_of_int m * p
              \<and> interpolate_property (TimestampVal first) (TimestampVal second) t
                  = Inr (TimestampVal (first + m))"
    if t: "double_lt (Finite 0) t" "double_lt t (Finite 1)"
      and b: "is_binary64 t" and r: "int64_representable (second - first)"
  proof -
    from t obtain x where x: "t = Finite x" "0 < x" "x < 1"
      using double_between_0_1 [of t] by blast
    from b x(1) have bx: "binary64_value x" by simp
    let ?p = "binary64_round (binary64_round (real_of_int (second - first)) * x)"
    note fits = scaled_count_fits [OF r bx x(2,3)]
    have inside: "interpolate_property (TimestampVal first) (TimestampVal second) (Finite x)
            = call_Timestamp \<lparr>interpolant = Finite x, SecondValue = TimestampVal second\<rparr> first"
      using x(2,3) by (simp add: interpolate_property_def double_ge_def)
    have visit: "call_Timestamp \<lparr>interpolant = Finite x, SecondValue = TimestampVal second\<rparr> first
            = (case static_cast_int64 (double_mul (double_of_int (second - first)) (Finite x)) of
                 Inl e \<Rightarrow> Inl e
               | Inr us \<Rightarrow> Inr (TimestampVal (first + sint us)))"
      by (simp add: timestamp_defs visitor_defs split: sum.split)
    have cast: "static_cast_int64 (Finite ?p) = Inr (word_of_int (trunc_toward_zero ?p))"
      using fits(2) by simp
    have "interpolate_property (TimestampVal first) (TimestampVal second) (Finite x)
            = Inr (TimestampVal (first + trunc_toward_zero ?p))"
      by (simp only: inside visit fits(1) cast sum.case
          sint_word_of_int_representable [OF fits(2)])
    with fits(1) trunc_toward_zero_spec [of ?p] show ?thesis
      unfolding x(1) by blast
  qed
  have i1: "interpolate_property (TimestampVal T0) (TimestampVal (T0 + 60000000)) (Finite (1/2))
       = Inr (TimestampVal (T0 + 30000000))"
    by (simp add: interpolate_property_def double_ge_def timestamp_defs visitor_defs)
       (simp add: binary64_eval Timestamp_plus_def microseconds_def)
  have i2: "interpolate_property (TimestampVal 0) (TimestampVal 10) (Finite (3/4))
       = Inr (TimestampVal 7)"
    by (simp add: interpolate_property_def double_ge_def timestamp_defs visitor_defs)
       (simp add: binary64_eval Timestamp_plus_def microseconds_def)
  have i3: "interpolate_property (TimestampVal 10) (TimestampVal 0) (Finite (3/4))
       = Inr (TimestampVal 3)"
    by (simp add: interpolate_property_def double_ge_def timestamp_defs visitor_defs)
       (simp add: binary64_eval Timestamp_plus_def microseconds_def)
  have l: "double_literal (7/10) = Finite (3152519739159347/4503599627370496)"
    by (simp add: binary64_eval)
  have i4: "interpolate_property (TimestampVal 0) (TimestampVal 10) (double_literal (7/10))
       = Inr (TimestampVal 7)"
    unfolding l
    by (simp add: interpolate_property_def double_ge_def timestamp_defs visitor_defs)
       (simp add: binary64_eval Timestamp_plus_def microseconds_def)
  from null gen i1 i2 i3 l i4 show ?thesis by blast
qed

theorem interpolate_property_timestamp_witness:
  "double_lt (Finite 0) (Finite (1/4)) \<and> double_lt (Finite (1/4)) (Finite 1)
   \<and> is_binary64 (Finite (1/4)) \<and> int64_representable (1000 - 2001)
   \<and> double_mul (double_of_int (1000 - 2001)) (Finite (1/4)) = Finite (- 1001 / 4)
   \<and> interpolate_property (TimestampVal 2001) (TimestampVal 1000) (Finite (1/4))
       = Inr (TimestampVal 1751)
   \<and> interpolate_property (TimestampVal 2001) (NullVal \<lparr>ExpectedType = TYPE_TIMESTAMP\<rparr>)
         (Finite (1/4))
       = Inr (TimestampVal 2001)"
proof -
  have a: "double_lt (Finite 0) (Finite (1/4)) \<and> double_lt (Finite (1/4)) (Finite 1)" by simp
  have b: "is_binary64 (Finite (1/4))" by (simp add: binary64_value_quarter)
  have c: "int64_representable (1000 - 2001)" by (simp add: int64_representable_def)
  have p: "double_mul (double_of_int (1000 - 2001)) (Finite (1/4)) = Finite (- 1001 / 4)"
    by (simp add: binary64_eval)
  from interpolate_property_timestamp
         [of "Finite (1/4)" 2001 "\<lparr>ExpectedType = TYPE_TIMESTAMP\<rparr>" 1000 0] a b c
  obtain q m where
    n: "interpolate_property (TimestampVal 2001) (NullVal \<lparr>ExpectedType = TYPE_TIMESTAMP\<rparr>)
         (Finite (1/4)) = Inr (TimestampVal 2001)"
    and q: "double_mul (double_of_int (1000 - 2001)) (Finite (1/4)) = Finite q"
    and m: "\<bar>real_of_int m\<bar> \<le> \<bar>q\<bar>" "\<bar>q\<bar> < \<bar>real_of_int m\<bar> + 1" "0 \<le> real_of_int m * q"
    and r: "interpolate_property (TimestampVal 2001) (TimestampVal 1000) (Finite (1/4))
              = Inr (TimestampVal (2001 + m))"
    by auto
  from p q have "q = - 1001 / 4" by simp
  with m have "m = - 250"
    by (auto simp add: zero_le_mult_iff)
  with r a b c p n show ?thesis by simp
qed

text \<open>
  C2, as stated: for all timestamps \<open>t1 < t2\<close> the interpolation at 0.5 lies strictly between
  \<open>t1\<close> and \<open>t2\<close>. Two timestamps one microsecond apart refute it: half a microsecond is
  truncated to none, and the result is \<open>t1\<close> itself.
\<close>

theorem interpolate_property_timestamp_adjacent:
  "(0::Timestamp) < 1
   \<and> interpolate_property (TimestampVal 0) (TimestampVal 1) (Finite (1/2)) = Inr (TimestampVal 0)"
  by (simp add: interpolate_property_def double_ge_def timestamp_defs visitor_defs)
       (simp add: binary64_eval Timestamp_plus_def microseconds_def)

text \<open>
  C2, amended: for all timestamps \<open>t1 < t2\<close> whose distance is a 64-bit count of microseconds,
  the interpolation at 0.5 is a timestamp that is not before \<open>t1\<close> and strictly before \<open>t2\<close>, and
  strictly after \<open>t1\<close> when the two are at least two microseconds apart; the interpolation at 1.0
  is \<open>t2\<close> itself. Three microseconds apart the result is one microsecond after \<open>t1\<close>; at a
  distance of \<open>2^54 + 2\<close> microseconds it is \<open>2^53\<close> microseconds after \<open>t1\<close>, the count
  having been rounded to \<open>2^54\<close> by its conversion to binary64.
\<close>

theorem interpolate_property_timestamp_midpoint:
  assumes "t1 < t2" and "int64_representable (t2 - t1)"
  shows "(\<exists>r. interpolate_property (TimestampVal t1) (TimestampVal t2) (Finite (1/2))
                 = Inr (TimestampVal r)
              \<and> t1 \<le> r \<and> r < t2 \<and> (2 \<le> t2 - t1 \<longrightarrow> t1 < r))
         \<and> interpolate_property (TimestampVal t1) (TimestampVal t2) (Finite 1)
             = Inr (TimestampVal t2)
         \<and> interpolate_property (TimestampVal 0) (TimestampVal 3) (Finite (1/2))
             = Inr (TimestampVal 1)
         \<and> interpolate_property (TimestampVal 0) (TimestampVal 18014398509481986) (Finite (1/2))
             = Inr (TimestampVal 9007199254740992)"
proof -
  let ?d = "t2 - t1"
  let ?m = "trunc_toward_zero (binary64_round (binary64_round (real_of_int ?d) * (1/2)))"
  have d: "1 \<le> ?d" using assms(1) by simp
  have h: "(0::real) < 1/2" "(1/2::real) < 1" by simp_all
  note fits = scaled_count_fits [OF assms(2) binary64_value_half h]
  have inside: "interpolate_property (TimestampVal t1) (TimestampVal t2) (Finite (1/2))
          = call_Timestamp \<lparr>interpolant = Finite (1/2), SecondValue = TimestampVal t2\<rparr> t1"
    by (simp add: interpolate_property_def double_ge_def)
  have visit: "call_Timestamp \<lparr>interpolant = Finite (1/2), SecondValue = TimestampVal t2\<rparr> t1
          = (case static_cast_int64 (double_mul (double_of_int ?d) (Finite (1/2))) of
               Inl e \<Rightarrow> Inl e
             | Inr us \<Rightarrow> Inr (TimestampVal (t1 + sint us)))"
    by (simp add: timestamp_defs visitor_defs split: sum.split)
  have cast: "static_cast_int64
                (Finite (binary64_round (binary64_round (real_of_int ?d) * (1/2))))
              = Inr (word_of_int ?m)"
    using fits(2) by simp
  have "interpolate_property (TimestampVal t1) (TimestampVal t2) (Finite (1/2))
          = Inr (TimestampVal (t1 + ?m))"
    by (simp only: inside visit fits(1) cast sum.case
        sint_word_of_int_representable [OF fits(2)])
  moreover have "t1 \<le> t1 + ?m" using halved_count_bounds(1) [OF d assms(2)] by simp
  moreover have "t1 + ?m < t2" using halved_count_bounds(2) [OF d assms(2)] by simp
  moreover have "2 \<le> ?d \<longrightarrow> t1 < t1 + ?m"
  proof
    assume "2 \<le> ?d"
    from halved_count_bounds(3) [OF d assms(2) this] show "t1 < t1 + ?m" by simp
  qed
  moreover have "interpolate_property (TimestampVal t1) (TimestampVal t2) (Finite 1)
             = Inr (TimestampVal t2)"
    by (simp add: interpolate_property_def double_ge_def)
  moreover have "interpolate_property (TimestampVal 0) (TimestampVal 3) (Finite (1/2))
             = Inr (TimestampVal 1)"
    by (simp add: interpolate_property_def double_ge_def timestamp_defs visitor_defs)
       (simp add: binary64_eval Timestamp_plus_def microseconds_def)
  moreover have "interpolate_property (TimestampVal 0) (TimestampVal 18014398509481986)
                   (Finite (1/2)) = Inr (TimestampVal 9007199254740992)"
    by (simp add: interpolate_property_def double_ge_def timestamp_defs visitor_defs)
       (simp add: binary64_eval Timestamp_plus_def microseconds_def)
  ultimately show ?thesis by blast
qed

theorem interpolate_property_timestamp_midpoint_witness:
  "(0::Timestamp) < 60000000 \<and> int64_representable (60000000 - 0)
   \<and> (\<exists>r. interpolate_property (TimestampVal 0) (TimestampVal 60000000) (Finite (1/2))
              = Inr (TimestampVal r) \<and> 0 < r \<and> r < 60000000)
   \<and> interpolate_property (TimestampVal 0) (TimestampVal 60000000) (Finite 1)
       = Inr (TimestampVal 60000000)"
  using interpolate_property_timestamp_midpoint [of 0 60000000]
  by (simp add: int64_representable_def) blast

section \<open>Mismatched tags\<close>

text \<open>
  C10. When the two values are both non-null and their tags differ (a real and a string, say) and
  \<open>0 < t < 1\<close>, \<open>interpolate_property\<close> ends in \<^verbatim>\<open>boost::bad_get\<close>, the type-mismatch fault:
  no value is returned and nothing is coerced.
\<close>

theorem interpolate_property_type_mismatch:
  assumes "double_lt (Finite 0) t" and "double_lt t (Finite 1)"
    and "\<not> is_property_null first" and "\<not> is_property_null second"
    and "property_underlying_type first \<noteq> property_underlying_type second"
  shows "interpolate_property first second t = Inl bad_get"
  using assms
  by (cases t; cases first; cases second)
     (simp_all add: interpolate_property_def double_ge_def visitor_defs
        call_double_def call_int64_def call_string_def call_Timestamp_def)

theorem interpolate_property_type_mismatch_witness:
  "double_lt (Finite 0) (Finite (1/2)) \<and> double_lt (Finite (1/2)) (Finite 1)
   \<and> \<not> is_property_null (RealVal (Finite 2)) \<and> \<not> is_property_null (StringVal ''x'')
   \<and> property_underlying_type (RealVal (Finite 2)) \<noteq> property_underlying_type (StringVal ''x'')
   \<and> interpolate_property (RealVal (Finite 2)) (StringVal ''x'') (Finite (1/2)) = Inl bad_get"
  using interpolate_property_type_mismatch [of "Finite (1/2)" "RealVal (Finite 2)" "StringVal ''x''"]
  by (simp add: visitor_defs)

section \<open>Extrapolation\<close>

text \<open>
  C9. \<open>extrapolate_property\<close> applies the same visitor as \<open>interpolate_property\<close> and has no
  boundary shortcut. For \<open>0 < t < 1\<close> the two agree on every pair of values. For every double
  \<open>u\<close>, also outside the unit interval, \<open>extrapolate_property\<close> is the rule of the first value's
  tag: the midpoint selection for a null, for strings and for any value against a null; the
  binary64 blend \<open>(1 - u) * a + u * b\<close> for reals; the first timestamp plus the converted
  binary64 product of the distance and \<open>u\<close> for timestamps; the converted binary64 sum
  \<open>(1 - u) * i1 + (u + i2)\<close> for integers. In particular the reals 0.0 and 10.0 extrapolate to
  15.0 at 1.5, where interpolation returns 10.0; the reals \<open>2^53\<close> and 1.0 give \<open>2^52\<close> at 0.5
  (the exact blend is rounded); timestamps 0 and 10 give 15 at 1.5 and \<open>-2\<close> at \<open>-0.25\<close>;
  integers 10 and 20 give 16 at 1.5; strings select the second at 1.5 and the first at \<open>-0.5\<close>.
\<close>

theorem extrapolate_property_no_shortcut:
  "(double_lt (Finite 0) t \<and> double_lt t (Finite 1) \<longrightarrow>
      extrapolate_property first second t = interpolate_property first second t)
   \<and> extrapolate_property (NullVal n) second u
       = Inr (if double_lt u (Finite (1/2)) then NullVal n else second)
   \<and> extrapolate_property (RealVal a) (RealVal b) u
       = Inr (RealVal (double_add (double_mul (double_sub (Finite 1) u) a) (double_mul u b)))
   \<and> extrapolate_property (StringVal s1) (StringVal s2) u
       = Inr (if double_lt u (Finite (1/2)) then StringVal s1 else StringVal s2)
   \<and> extrapolate_property (TimestampVal ts1) (TimestampVal ts2) u
       = (case static_cast_int64 (double_mul (double_of_int (ts2 - ts1)) u) of
            Inl e \<Rightarrow> Inl e
          | Inr us \<Rightarrow> Inr (TimestampVal (ts1 + sint us)))
   \<and> extrapolate_property (IntegerVal i1) (IntegerVal i2) u
       = (case static_cast_int64
                 (double_add (double_mul (double_sub (Finite 1) u) (double_of_int64 i1))
                             (double_add u (double_of_int64 i2))) of
            Inl e \<Rightarrow> Inl e
          | Inr result \<Rightarrow> Inr (IntegerVal result))
   \<and> extrapolate_property (StringVal s1) (NullVal n) u
       = Inr (if double_lt u (Finite (1/2)) then StringVal s1 else NullVal n)
   \<and> extrapolate_property (TimestampVal ts1) (NullVal n) u
       = Inr (if double_lt u (Finite (1/2)) then TimestampVal ts1 else NullVal n)
   \<and> extrapolate_property (IntegerVal i1) (NullVal n) u
       = Inr (if double_lt u (Finite (1/2)) then IntegerVal i1 else NullVal n)
   \<and> extrapolate_property (RealVal (Finite 0)) (RealVal (Finite 10)) (Finite (3/2))
       = Inr (RealVal (Finite 15))
   \<and> interpolate_property (RealVal (Finite 0)) (RealVal (Finite 10)) (Finite (3/2))
       = Inr (RealVal (Finite 10))
   \<and> extrapolate_property (RealVal (Finite 9007199254740992)) (RealVal (Finite 1)) (Finite (1/2))
       = Inr (RealVal (Finite 4503599627370496))
   \<and> extrapolate_property (TimestampVal 0) (TimestampVal 10) (Finite (3/2))
       = Inr (TimestampVal 15)
   \<and> extrapolate_property (TimestampVal 0) (TimestampVal 10) (Finite (- 1/4))
       = Inr (TimestampVal (- 2))
   \<and> extrapolate_property (IntegerVal 10) (IntegerVal 20) (Finite (3/2)) = Inr (IntegerVal 16)
   \<and> extrapolate_property (StringVal ''A'') (StringVal ''B'') (Finite (3/2))
       = Inr (StringVal ''B'')
   \<and> extrapolate_property (StringVal ''A'') (StringVal ''B'') (Finite (- 1/2))
       = Inr (StringVal ''A'')"
proof -
  have eq: "extrapolate_property first second t = interpolate_property first second t"
    if "double_lt (Finite 0) t" and "double_lt t (Finite 1)"
    using that
    by (cases t)
       (simp_all add: interpolate_property_def extrapolate_property_def double_ge_def)
  have n: "extrapolate_property (NullVal n) second u
       = Inr (if double_lt u (Finite (1/2)) then NullVal n else second)"
    by (simp add: extrapolate_property_def call_NullValue_def)
  have r: "extrapolate_property (RealVal a) (RealVal b) u
       = Inr (RealVal (double_add (double_mul (double_sub (Finite 1) u) a) (double_mul u b)))"
    by (simp add: extrapolate_property_def call_double_def)
  have s: "extrapolate_property (StringVal s1) (StringVal s2) u
       = Inr (if double_lt u (Finite (1/2)) then StringVal s1 else StringVal s2)"
    by (simp add: extrapolate_property_def call_string_def visitor_defs)
  have ts: "extrapolate_property (TimestampVal ts1) (TimestampVal ts2) u
       = (case static_cast_int64 (double_mul (double_of_int (ts2 - ts1)) u) of
            Inl e \<Rightarrow> Inl e
          | Inr us \<Rightarrow> Inr (TimestampVal (ts1 + sint us)))"
    by (simp add: extrapolate_property_def timestamp_defs visitor_defs split: sum.split)
  have i: "extrapolate_property (IntegerVal i1) (IntegerVal i2) u
       = (case static_cast_int64
                 (double_add (double_mul (double_sub (Finite 1) u) (double_of_int64 i1))
                             (double_add u (double_of_int64 i2))) of
            Inl e \<Rightarrow> Inl e
          | Inr result \<Rightarrow> Inr (IntegerVal result))"
    by (simp add: extrapolate_property_def call_int64_def visitor_defs)
  have sn: "extrapolate_property (StringVal s1) (NullVal n) u
       = Inr (if double_lt u (Finite (1/2)) then StringVal s1 else NullVal n)"
    by (simp add: extrapolate_property_def call_string_def visitor_defs)
  have tn: "extrapolate_property (TimestampVal ts1) (NullVal n) u
       = Inr (if double_lt u (Finite (1/2)) then TimestampVal ts1 else NullVal n)"
    by (simp add: extrapolate_property_def call_Timestamp_def visitor_defs)
  have inn: "extrapolate_property (IntegerVal i1) (NullVal n) u
       = Inr (if double_lt u (Finite (1/2)) then IntegerVal i1 else NullVal n)"
    by (simp add: extrapolate_property_def call_int64_def visitor_defs)
  have e1: "extrapolate_property (RealVal (Finite 0)) (RealVal (Finite 10)) (Finite (3/2))
       = Inr (RealVal (Finite 15))"
    by (simp add: extrapolate_property_def call_double_def binary64_eval)
  have e1': "interpolate_property (RealVal (Finite 0)) (RealVal (Finite 10)) (Finite (3/2))
       = Inr (RealVal (Finite 10))"
    by (simp add: interpolate_property_def double_ge_def)
  have e2: "extrapolate_property (RealVal (Finite 9007199254740992)) (RealVal (Finite 1))
              (Finite (1/2)) = Inr (RealVal (Finite 4503599627370496))"
    by (simp add: extrapolate_property_def call_double_def binary64_eval)
  have e3: "extrapolate_property (TimestampVal 0) (TimestampVal 10) (Finite (3/2))
       = Inr (TimestampVal 15)"
    by (simp add: extrapolate_property_def timestamp_defs visitor_defs)
       (simp add: binary64_eval Timestamp_plus_def microseconds_def)
  have e4: "extrapolate_property (TimestampVal 0) (TimestampVal 10) (Finite (- 1/4))
       = Inr (TimestampVal (- 2))"
    by (simp add: extrapolate_property_def timestamp_defs visitor_defs)
       (simp add: binary64_eval Timestamp_plus_def microseconds_def)
  have e5: "extrapolate_property (IntegerVal 10) (IntegerVal 20) (Finite (3/2))
       = Inr (IntegerVal 16)"
    by (simp add: extrapolate_property_def call_int64_def visitor_defs binary64_eval)
  have e6: "extrapolate_property (StringVal ''A'') (StringVal ''B'') (Finite (3/2))
       = Inr (StringVal ''B'')"
    by (simp add: extrapolate_property_def call_string_def visitor_defs)
  have e7: "extrapolate_property (StringVal ''A'') (StringVal ''B'') (Finite (- 1/2))
       = Inr (StringVal ''A'')"
    by (simp add: extrapolate_property_def call_string_def visitor_defs)
  from eq show ?thesis
    unfolding n r s ts i sn tn inn e1 e1' e2 e3 e4 e5 e6 e7 by simp
qed

theorem extrapolate_property_no_shortcut_witness:
  "double_lt (Finite 0) (Finite (1/4)) \<and> double_lt (Finite (1/4)) (Finite 1)
   \<and> extrapolate_property (RealVal (Finite 10)) (RealVal (Finite 20)) (Finite (1/4))
       = interpolate_property (RealVal (Finite 10)) (RealVal (Finite 20)) (Finite (1/4))
   \<and> interpolate_property (RealVal (Finite 10)) (RealVal (Finite 20)) (Finite (1/4))
       = Inr (RealVal (Finite (25/2)))"
proof -
  have a: "double_lt (Finite 0) (Finite (1/4)) \<and> double_lt (Finite (1/4)) (Finite 1)" by simp
  from extrapolate_property_no_shortcut
         [of "Finite (1/4)" "RealVal (Finite 10)" "RealVal (Finite 20)"
             "\<lparr>ExpectedType = TYPE_REAL\<rparr>" "Finite (1/4)" "Finite 10" "Finite 20"
             "''A''" "''B''" 0 10 10 20] a
  have e: "extrapolate_property (RealVal (Finite 10)) (RealVal (Finite 20)) (Finite (1/4))
       = interpolate_property (RealVal (Finite 10)) (RealVal (Finite 20)) (Finite (1/4))"
    and v: "extrapolate_property (RealVal (Finite 10)) (RealVal (Finite 20)) (Finite (1/4))
       = Inr (RealVal (double_add (double_mul (double_sub (Finite 1) (Finite (1/4))) (Finite 10))
                                  (double_mul (Finite (1/4)) (Finite 20))))"
    by blast+
  have "double_add (double_mul (double_sub (Finite 1) (Finite (1/4))) (Finite 10))
                   (double_mul (Finite (1/4)) (Finite 20)) = Finite (25/2)"
    by (simp add: binary64_eval)
  with e v a show ?thesis by simp
qed

end
